theory Spec2Isabelle
  imports Main "HOL-Library.Word"
begin

unbundle bit_operations_syntax

section \<open>The UVM assembler and interpreter of dz4.py\<close>

text \<open>
  The program has two functions, \<^verbatim>\<open>assemble\<close> and \<^verbatim>\<open>interpret\<close>. Python integers are
  unbounded, so instruction words, arguments and memory cells are \<^typ>\<open>int\<close>; Python's
  \<^verbatim>\<open>&\<close>, \<^verbatim>\<open>|\<close>, \<^verbatim>\<open><<\<close> and \<^verbatim>\<open>>>\<close> on integers are two's complement operations on
  unbounded integers, which is what \<open>AND\<close>, \<open>OR\<close>, \<^const>\<open>push_bit\<close> and \<^const>\<open>drop_bit\<close>
  are on \<^typ>\<open>int\<close>. Every exception the code can raise is a value of \<open>error\<close>.
\<close>

datatype error = ValueError | IndexError | OverflowError

subsection \<open>Reading a source line: \<^verbatim>\<open>line.strip().split()\<close> and \<^verbatim>\<open>int(token)\<close>\<close>

text \<open>
  A line is a Python \<^verbatim>\<open>str\<close> whose characters are code points below 256, one \<^typ>\<open>char\<close>
  each. Python's \<^verbatim>\<open>str.split()\<close> without an argument cuts at runs of the characters for
  which \<^verbatim>\<open>str.isspace()\<close> holds and yields no empty token, so the \<^verbatim>\<open>strip()\<close> before it
  changes nothing. Below 256 these characters are the tab to the carriage return
  (9 to 13), the four separators 28 to 31, the space, the next-line character U+0085 and
  the no-break space U+00A0.
\<close>

definition is_space :: "char \<Rightarrow> bool" where
  "is_space c = (c \<in> set [CHR '' '', CHR 0x09, CHR 0x0A, CHR 0x0B, CHR 0x0C, CHR 0x0D,
                            CHR 0x1C, CHR 0x1D, CHR 0x1E, CHR 0x1F, CHR 0x85, CHR 0xA0])"

fun split_acc :: "string \<Rightarrow> string \<Rightarrow> string list" where
  "split_acc cur [] = (if cur = [] then [] else [rev cur])"
| "split_acc cur (c # cs) =
     (if is_space c then (if cur = [] then split_acc [] cs else rev cur # split_acc [] cs)
      else split_acc (c # cur) cs)"

definition split_ws :: "string \<Rightarrow> string list" where
  "split_ws line = split_acc [] line"

definition digit_val :: "char \<Rightarrow> int option" where
  "digit_val c =
     (let code = (of_char c :: nat)
      in if 48 \<le> code \<and> code \<le> 57 then Some (int code - 48) else None)"

text \<open>
  \<^verbatim>\<open>int(s)\<close> in base ten: an optional sign, then decimal digits, where a single underscore
  may stand between two digits. \<open>prev\<close> says that the character before was a digit.
  Below 256 the decimal digits are \<^verbatim>\<open>0\<close> to \<^verbatim>\<open>9\<close> only. The limit that newer interpreters
  put on the number of digits (4300 unless configured otherwise, ValueError beyond) is
  left out: \<open>py_int\<close> is \<^verbatim>\<open>int\<close> on tokens of at most 4300 characters, and on a longer
  token \<^verbatim>\<open>int\<close> may raise where \<open>py_int\<close> yields a value.
\<close>

fun parse_digits :: "int \<Rightarrow> bool \<Rightarrow> string \<Rightarrow> int option" where
  "parse_digits acc prev [] = (if prev then Some acc else None)"
| "parse_digits acc prev (c # cs) =
     (if c = CHR ''_'' then (if prev \<and> cs \<noteq> [] then parse_digits acc False cs else None)
      else (case digit_val c of
              None \<Rightarrow> None
            | Some d \<Rightarrow> parse_digits (acc * 10 + d) True cs))"

definition py_int :: "string \<Rightarrow> int option" where
  "py_int s =
     (case s of
        [] \<Rightarrow> None
      | c # cs \<Rightarrow>
          if c = CHR ''-'' then map_option uminus (parse_digits 0 False cs)
          else if c = CHR ''+'' then parse_digits 0 False cs
          else parse_digits 0 False s)"

text \<open>\<^verbatim>\<open>list(map(int, parts[1:]))\<close>: the first token that is no integer raises ValueError.\<close>

fun map_int :: "string list \<Rightarrow> error + int list" where
  "map_int [] = Inr []"
| "map_int (t # ts) =
     (case py_int t of
        None \<Rightarrow> Inl ValueError
      | Some v \<Rightarrow> (case map_int ts of Inl e \<Rightarrow> Inl e | Inr vs \<Rightarrow> Inr (v # vs)))"

subsection \<open>The encoder: the body of the loop of \<^verbatim>\<open>assemble\<close>\<close>

text \<open>
  The \<^verbatim>\<open>if\<close>/\<^verbatim>\<open>elif\<close> chain on the command. \<^verbatim>\<open>B, C = args\<close> raises ValueError unless
  \<open>args\<close> has exactly two elements (three for READ\_MEM); the \<^verbatim>\<open>else\<close> branch raises
  ValueError for a command that is none of the four.
\<close>

definition encode :: "string \<Rightarrow> int list \<Rightarrow> error + int" where
  "encode command args =
     (if command = ''LOAD_CONST'' then
        (case args of
           [B, C] \<Rightarrow> Inr (push_bit 61 (5 AND 0x7) OR push_bit 41 (B AND 0xFFFFF)
                           OR (C AND 0x7FFFFFFFFFF))
         | _ \<Rightarrow> Inl ValueError)
      else if command = ''READ_MEM'' then
        (case args of
           [B, C, D] \<Rightarrow> Inr (push_bit 61 (6 AND 0x7) OR push_bit 41 (B AND 0xFFFFF)
                              OR push_bit 21 (C AND 0xFFFFF) OR (D AND 0x7FFF))
         | _ \<Rightarrow> Inl ValueError)
      else if command = ''WRITE_MEM'' then
        (case args of
           [B, C] \<Rightarrow> Inr (push_bit 61 (1 AND 0x7) OR push_bit 41 (B AND 0xFFFFF)
                           OR (C AND 0xFFFFF))
         | _ \<Rightarrow> Inl ValueError)
      else if command = ''ABS'' then
        (case args of
           [B, C] \<Rightarrow> Inr (push_bit 61 (0 AND 0x7) OR push_bit 41 (B AND 0xFFFFF)
                           OR (C AND 0xFFFFF))
         | _ \<Rightarrow> Inl ValueError)
      else Inl ValueError)"

subsection \<open>The decoder: the four fields \<^verbatim>\<open>interpret\<close> extracts from every word\<close>

definition field_A :: "int \<Rightarrow> int" where
  "field_A instruction = (drop_bit 61 instruction) AND 0x7"

definition field_B :: "int \<Rightarrow> int" where
  "field_B instruction = (drop_bit 41 instruction) AND 0xFFFFF"

definition field_C :: "int \<Rightarrow> int" where
  "field_C instruction = (drop_bit 21 instruction) AND 0xFFFFF"

definition field_D :: "int \<Rightarrow> int" where
  "field_D instruction = instruction AND 0x7FFF"

subsection \<open>The outputs of \<^verbatim>\<open>assemble\<close>\<close>

text \<open>
  The file system holds what the two functions write: the binary word stream, the trace
  (\<^verbatim>\<open>csv.DictWriter\<close> rows under the header \<^verbatim>\<open>command, args, instruction\<close>) and the memory
  dump (rows under the header \<^verbatim>\<open>Address, Value\<close>). The rows are kept as values; their
  rendering as CSV text is left to the \<^verbatim>\<open>csv\<close> module. What the functions read (the lines of
  the source file, the bytes of the binary file) is an argument.
\<close>

type_synonym byte = "8 word"

record trace =
  tr_command :: string
  tr_args :: "int list"
  tr_instruction :: string

datatype written = Binary "byte list" | Trace "trace list" | Dump "(int \<times> int) list"

type_synonym fs = "string \<rightharpoonup> written"

text \<open>
  \<^verbatim>\<open>f"{instruction:016X}"\<close>: sixteen upper-case hexadecimal digits, most significant first,
  for a word in \<open>[0, 2^64)\<close> (every word \<open>encode\<close> yields is, see \<open>encode_range\<close>).
\<close>

definition hex_digit :: "int \<Rightarrow> char" where
  "hex_digit d = ''0123456789ABCDEF'' ! nat d"

definition hex16 :: "int \<Rightarrow> string" where
  "hex16 n = map (\<lambda>k. hex_digit (take_bit 4 (drop_bit (4 * k) n))) (rev [0..<16])"

text \<open>One turn of the loop over the lines; \<^verbatim>\<open>parts[0]\<close> of a blank line raises IndexError.\<close>

definition assemble_line :: "string \<Rightarrow> error + (int \<times> trace)" where
  "assemble_line line =
     (case split_ws line of
        [] \<Rightarrow> Inl IndexError
      | command # rest \<Rightarrow>
          (case map_int rest of
             Inl e \<Rightarrow> Inl e
           | Inr args \<Rightarrow>
               (case encode command args of
                  Inl e \<Rightarrow> Inl e
                | Inr instruction \<Rightarrow>
                    Inr (instruction,
                         \<lparr>tr_command = command, tr_args = args,
                          tr_instruction = hex16 instruction\<rparr>))))"

fun assemble_loop :: "string list \<Rightarrow> error + (int list \<times> trace list)" where
  "assemble_loop [] = Inr ([], [])"
| "assemble_loop (line # lines) =
     (case assemble_line line of
        Inl e \<Rightarrow> Inl e
      | Inr (instruction, entry) \<Rightarrow>
          (case assemble_loop lines of
             Inl e \<Rightarrow> Inl e
           | Inr (binary_instructions, log_data) \<Rightarrow>
               Inr (instruction # binary_instructions, entry # log_data)))"

text \<open>\<^verbatim>\<open>inst.to_bytes(8, byteorder='big')\<close> raises OverflowError outside \<open>[0, 2^64)\<close>.\<close>

definition to_bytes8 :: "int \<Rightarrow> error + byte list" where
  "to_bytes8 n =
     (if n < 0 \<or> 2 ^ 64 \<le> n then Inl OverflowError
      else Inr (map (\<lambda>k. word_of_int (drop_bit (8 * k) n)) (rev [0..<8])))"

text \<open>The loop that writes the words: \<open>out\<close> is what the opened file holds so far.\<close>

fun write_words :: "byte list \<Rightarrow> int list \<Rightarrow> error option \<times> byte list" where
  "write_words out [] = (None, out)"
| "write_words out (inst # rest) =
     (case to_bytes8 inst of
        Inl e \<Rightarrow> (Some e, out)
      | Inr bs \<Rightarrow> write_words (out @ bs) rest)"

definition assemble :: "string list \<Rightarrow> string \<Rightarrow> string \<Rightarrow> fs \<Rightarrow> error option \<times> fs" where
  "assemble lines output_path log_path files =
     (case assemble_loop lines of
        Inl e \<Rightarrow> (Some e, files)
      | Inr (binary_instructions, log_data) \<Rightarrow>
          (case write_words [] binary_instructions of
             (Some e, bytes) \<Rightarrow> (Some e, files(output_path \<mapsto> Binary bytes))
           | (None, bytes) \<Rightarrow>
               (None, files(output_path \<mapsto> Binary bytes, log_path \<mapsto> Trace log_data))))"

subsection \<open>The executor: \<^verbatim>\<open>interpret\<close> (here \<open>interpret_uvm\<close>)\<close>

text \<open>
  Python list subscripts: an index in \<open>[-len, 0)\<close> counts from the end, an index outside
  \<open>[-len, len)\<close> raises IndexError, on reading and on writing.
\<close>

definition getitem :: "int list \<Rightarrow> int \<Rightarrow> error + int" where
  "getitem xs i =
     (let n = int (length xs); j = (if i < 0 then i + n else i)
      in if 0 \<le> j \<and> j < n then Inr (xs ! nat j) else Inl IndexError)"

definition setitem :: "int list \<Rightarrow> int \<Rightarrow> int \<Rightarrow> error + int list" where
  "setitem xs i v =
     (let n = int (length xs); j = (if i < 0 then i + n else i)
      in if 0 \<le> j \<and> j < n then Inr (xs[nat j := v]) else Inl IndexError)"

definition memory_init :: "int list" where
  "memory_init = replicate 1024 0"

text \<open>
  One instruction. Python evaluates the right-hand side of an assignment first, then the
  subscript of the target, then stores.
\<close>

definition exec_instr :: "int list \<Rightarrow> int \<Rightarrow> error + int list" where
  "exec_instr memory instruction =
     (let A = field_A instruction; B = field_B instruction;
          C = field_C instruction; D = field_D instruction
      in if A = 5 then setitem memory B C
         else if A = 6 then
           (case getitem memory C of
              Inl e \<Rightarrow> Inl e
            | Inr a \<Rightarrow>
                (case getitem memory (a + D) of
                   Inl e \<Rightarrow> Inl e
                 | Inr v \<Rightarrow> setitem memory B v))
         else if A = 1 then
           (case getitem memory C of
              Inl e \<Rightarrow> Inl e
            | Inr a \<Rightarrow>
                (case getitem memory a of
                   Inl e \<Rightarrow> Inl e
                 | Inr v \<Rightarrow>
                     (case getitem memory B of
                        Inl e \<Rightarrow> Inl e
                      | Inr t \<Rightarrow> setitem memory t v)))
         else if A = 0 then
           (case getitem memory C of
              Inl e \<Rightarrow> Inl e
            | Inr a \<Rightarrow>
                (case getitem memory a of
                   Inl e \<Rightarrow> Inl e
                 | Inr v \<Rightarrow>
                     (case getitem memory B of
                        Inl e \<Rightarrow> Inl e
                      | Inr t \<Rightarrow> setitem memory t \<bar>v\<bar>)))
         else Inr memory)"

fun run :: "int list \<Rightarrow> int list \<Rightarrow> error + int list" where
  "run memory [] = Inr memory"
| "run memory (instruction # rest) =
     (case exec_instr memory instruction of
        Inl e \<Rightarrow> Inl e
      | Inr memory' \<Rightarrow> run memory' rest)"

text \<open>
  \<^verbatim>\<open>int.from_bytes(instructions[i:i + 8], byteorder='big')\<close> for \<open>i = 0, 8, 16, ...\<close>: the
  last slice is shorter when the length is no multiple of eight.
\<close>

definition from_bytes :: "byte list \<Rightarrow> int" where
  "from_bytes bs = foldl (\<lambda>acc b. acc * 256 + uint b) 0 bs"

function words_of :: "byte list \<Rightarrow> int list" where
  "words_of bs = (if bs = [] then [] else from_bytes (take 8 bs) # words_of (drop 8 bs))"
  by pat_completeness auto
termination
  by (relation "measure length") auto

text \<open>
  \<^verbatim>\<open>memory[lo:hi]\<close>: a negative bound counts from the end, and both bounds are clipped to
  the list. \<^verbatim>\<open>enumerate(memory_dump, start=lo)\<close> numbers the cells from \<open>lo\<close> as given.
\<close>

definition slice_bound :: "nat \<Rightarrow> int \<Rightarrow> nat" where
  "slice_bound n i = (if i < 0 then nat (max 0 (i + int n)) else min n (nat i))"

definition py_slice :: "'a list \<Rightarrow> int \<Rightarrow> int \<Rightarrow> 'a list" where
  "py_slice xs lo hi =
     (let l = slice_bound (length xs) lo; h = slice_bound (length xs) hi
      in take (h - l) (drop l xs))"

definition dump_rows :: "int list \<Rightarrow> int \<times> int \<Rightarrow> (int \<times> int) list" where
  "dump_rows memory memory_range =
     (let memory_dump = py_slice memory (fst memory_range) (snd memory_range)
      in zip (map (\<lambda>k. fst memory_range + int k) [0..<length memory_dump]) memory_dump)"

definition interpret_uvm :: "byte list \<Rightarrow> string \<Rightarrow> int \<times> int \<Rightarrow> fs \<Rightarrow> error option \<times> fs" where
  "interpret_uvm instructions memory_dump_path memory_range files =
     (case run memory_init (words_of instructions) of
        Inl e \<Rightarrow> (Some e, files)
      | Inr memory \<Rightarrow>
          (None, files(memory_dump_path \<mapsto> Dump (dump_rows memory memory_range))))"

subsection \<open>Notions the properties are stated with\<close>

text \<open>The shape of every encoded word, with the opcode and the low part left open.\<close>

definition pack :: "int \<Rightarrow> int \<Rightarrow> int \<Rightarrow> int" where
  "pack a b low = push_bit 61 (a AND mask 3) OR push_bit 41 (b AND mask 20) OR low"

text \<open>A memory of 1024 cells, none of them negative.\<close>

definition good :: "int list \<Rightarrow> bool" where
  "good memory = (length memory = 1024 \<and> list_all (\<lambda>v. 0 \<le> v) memory)"

text \<open>
  The memory indices an instruction computes in a given memory: the decoded fields it
  subscripts the memory with, and the indices it derives from cells it can read
  (\<^verbatim>\<open>memory[C] + D\<close> for A = 6, \<^verbatim>\<open>memory[C]\<close> and \<^verbatim>\<open>memory[B]\<close> for A = 1 and A = 0).
\<close>

definition computed_indices :: "int list \<Rightarrow> int \<Rightarrow> int list" where
  "computed_indices memory instruction =
     (let A = field_A instruction; B = field_B instruction;
          C = field_C instruction; D = field_D instruction
      in if A = 5 then [B]
         else if A = 6 then
           [C, B] @ (case getitem memory C of Inl e \<Rightarrow> [] | Inr a \<Rightarrow> [a + D])
         else if A = 1 \<or> A = 0 then
           [C, B] @ (case getitem memory C of Inl e \<Rightarrow> [] | Inr a \<Rightarrow> [a])
                  @ (case getitem memory B of Inl e \<Rightarrow> [] | Inr t \<Rightarrow> [t])
         else [])"

text \<open>
  The number of arguments each mnemonic takes, and the lines that are input-format
  errors: a blank line (it has no mnemonic at all), a mnemonic that is none of the four,
  a number of arguments that is not the mnemonic's, or an argument token that is no
  integer.
\<close>

definition arg_count :: "string \<Rightarrow> nat option" where
  "arg_count command =
     (if command = ''LOAD_CONST'' then Some 2
      else if command = ''READ_MEM'' then Some 3
      else if command = ''WRITE_MEM'' then Some 2
      else if command = ''ABS'' then Some 2
      else None)"

definition input_format_error :: "string \<Rightarrow> bool" where
  "input_format_error line =
     (case split_ws line of
        [] \<Rightarrow> True
      | command # rest \<Rightarrow>
          (case arg_count command of
             None \<Rightarrow> True
           | Some n \<Rightarrow> length rest \<noteq> n \<or> list_ex (\<lambda>t. py_int t = None) rest))"

section \<open>Bit fields\<close>

lemma mask3: "(0x7::int) = mask 3"
  by (simp add: mask_eq_exp_minus_1)

lemma mask15: "(0x7FFF::int) = mask 15"
  by (simp add: mask_eq_exp_minus_1)

lemma mask20: "(0xFFFFF::int) = mask 20"
  by (simp add: mask_eq_exp_minus_1)

lemma mask43: "(0x7FFFFFFFFFF::int) = mask 43"
  by (simp add: mask_eq_exp_minus_1)

lemma field_C_pack_low20:
  "(drop_bit 21 (pack a b (c AND mask 20))) AND mask 20 = 0"
  unfolding pack_def by (rule bit_eqI) (auto simp add: bit_simps)

lemma field_B_pack_low43:
  "(drop_bit 41 (pack a b (c AND mask 43))) AND mask 20
     = take_bit 20 b OR take_bit 2 (drop_bit 41 c)"
  unfolding pack_def by (rule bit_eqI) (auto simp add: bit_simps)

lemma field_C_pack_low43:
  "(drop_bit 21 (pack a b (c AND mask 43))) AND mask 20 = take_bit 20 (drop_bit 21 c)"
  unfolding pack_def by (rule bit_eqI) (auto simp add: bit_simps)

lemma and_mask_mod: "(x mod 2 ^ n) AND mask n = (x::int) AND mask n"
  by (simp flip: take_bit_eq_mask take_bit_eq_mod)

lemma three_mask: "(3::int) = mask 2"
  by (simp add: mask_eq_exp_minus_1)

lemma or_3_eq_iff: "(B OR 3 = (B::int)) \<longleftrightarrow> (bit B 0 \<and> bit B 1)"
proof -
  have "(B OR mask 2 = B) \<longleftrightarrow> (\<forall>n. n < 2 \<longrightarrow> bit B n)"
    by (auto simp add: bit_eq_iff bit_simps)
  also have "\<dots> \<longleftrightarrow> (bit B 0 \<and> bit B 1)"
    by (auto simp add: less_2_cases_iff)
  finally show ?thesis by (simp add: three_mask)
qed

lemma top_two_bits: "bit C 41 \<Longrightarrow> bit C 42 \<Longrightarrow> take_bit 2 (drop_bit 41 (C::int)) = 3"
  unfolding three_mask
  by (rule bit_eqI) (auto simp add: bit_simps less_2_cases_iff)

section \<open>What the encoder yields\<close>

lemma encode_LOAD_CONST: "encode ''LOAD_CONST'' [b, c] = Inr (pack 5 b (c AND mask 43))"
  by (simp add: encode_def pack_def mask_eq_exp_minus_1)

lemma encode_READ_MEM:
  "encode ''READ_MEM'' [b, c, d]
     = Inr (pack 6 b (push_bit 21 (c AND mask 20) OR (d AND mask 15)))"
  by (simp add: encode_def pack_def mask_eq_exp_minus_1)

lemma encode_WRITE_MEM: "encode ''WRITE_MEM'' [b, c] = Inr (pack 1 b (c AND mask 20))"
  by (simp add: encode_def pack_def mask_eq_exp_minus_1)

lemma encode_ABS: "encode ''ABS'' [b, c] = Inr (pack 0 b (c AND mask 20))"
  by (simp add: encode_def pack_def mask_eq_exp_minus_1)

lemma encode_mod_LOAD_CONST:
  "encode ''LOAD_CONST'' [B mod 2 ^ 20, C mod 2 ^ 43] = encode ''LOAD_CONST'' [B, C]"
  by (simp only: encode_LOAD_CONST pack_def and_mask_mod)

lemma encode_mod_READ_MEM:
  "encode ''READ_MEM'' [B mod 2 ^ 20, C mod 2 ^ 20, D mod 2 ^ 15]
     = encode ''READ_MEM'' [B, C, D]"
  by (simp only: encode_READ_MEM pack_def and_mask_mod)

lemma encode_mod_WRITE_MEM:
  "encode ''WRITE_MEM'' [B mod 2 ^ 20, C mod 2 ^ 20] = encode ''WRITE_MEM'' [B, C]"
  by (simp only: encode_WRITE_MEM pack_def and_mask_mod)

lemma encode_mod_ABS:
  "encode ''ABS'' [B mod 2 ^ 20, C mod 2 ^ 20] = encode ''ABS'' [B, C]"
  by (simp only: encode_ABS pack_def and_mask_mod)

section \<open>Decoding an encoded word\<close>

lemma field_B_read:
  "field_B (pack a b (push_bit 21 (c AND mask 20) OR (d AND mask 15))) = take_bit 20 b"
  unfolding pack_def field_B_def mask20 by (rule bit_eqI) (auto simp add: bit_simps)

lemma field_C_read:
  "field_C (pack a b (push_bit 21 (c AND mask 20) OR (d AND mask 15))) = take_bit 20 c"
  unfolding pack_def field_C_def mask20 by (rule bit_eqI) (auto simp add: bit_simps)

lemma field_D_read:
  "field_D (pack a b (push_bit 21 (c AND mask 20) OR (d AND mask 15))) = take_bit 15 d"
  unfolding pack_def field_D_def mask15 by (rule bit_eqI) (auto simp add: bit_simps)

lemma field_C_low20: "field_C (pack a b (c AND mask 20)) = 0"
  unfolding field_C_def mask20 by (rule field_C_pack_low20)

lemma field_B_load:
  "field_B (pack a b (c AND mask 43)) = take_bit 20 b OR take_bit 2 (drop_bit 41 c)"
  unfolding field_B_def mask20 by (rule field_B_pack_low43)

lemma field_C_load: "field_C (pack a b (c AND mask 43)) = take_bit 20 (drop_bit 21 c)"
  unfolding field_C_def mask20 by (rule field_C_pack_low43)

section \<open>The claims about the encoding\<close>

text \<open>
  C2. For every WRITE\_MEM and every ABS instruction the assembler encodes, whatever the
  destination and the source address arguments are, the C field the executor decodes
  (bits 40 to 21 of the word) is 0.
\<close>

theorem WRITE_MEM_ABS_decoded_C_zero:
  "(\<exists>w. encode ''WRITE_MEM'' [addr_dst, addr_src] = Inr w \<and> field_C w = 0) \<and>
   (\<exists>w. encode ''ABS'' [addr_dst, addr_src] = Inr w \<and> field_C w = 0)"
  unfolding encode_WRITE_MEM encode_ABS by (simp add: field_C_low20)

text \<open>
  C3. For every READ\_MEM instruction whose arguments fit their fields
  (\<open>0 \<le> addr_dst < 2^20\<close>, \<open>0 \<le> addr_base < 2^20\<close>, \<open>0 \<le> offset < 2^15\<close>), encoding
  succeeds and the uniform extraction of the executor recovers \<open>addr_dst\<close> as B,
  \<open>addr_base\<close> as C and \<open>offset\<close> as D.
\<close>

theorem READ_MEM_roundtrip:
  assumes "0 \<le> addr_dst" "addr_dst < 2 ^ 20" "0 \<le> addr_base" "addr_base < 2 ^ 20"
    "0 \<le> offset" "offset < 2 ^ 15"
  shows "\<exists>w. encode ''READ_MEM'' [addr_dst, addr_base, offset] = Inr w \<and>
     field_B w = addr_dst \<and> field_C w = addr_base \<and> field_D w = offset"
proof -
  have "take_bit 20 addr_dst = addr_dst" "take_bit 20 addr_base = addr_base"
    "take_bit 15 offset = offset"
    using assms by (simp_all add: take_bit_int_eq_self)
  then show ?thesis
    by (simp only: encode_READ_MEM field_B_read field_C_read field_D_read sum.inject
        simp_thms ex_simps)
qed

theorem READ_MEM_roundtrip_witness:
  "\<exists>w. encode ''READ_MEM'' [5, 1000, 7] = Inr w \<and>
     field_B w = 5 \<and> field_C w = 1000 \<and> field_D w = 7"
  using READ_MEM_roundtrip [of 5 1000 7] by simp

text \<open>
  C4, as the code has it. For every LOAD\_CONST instruction whose address B fits its
  20-bit field and whose constant C (within the 43-bit field) has its two highest bits
  (42 and 41) set, the decoded B field is \<open>B OR 3\<close>: it differs from the original B
  exactly when the two lowest bits of B are not both set. When both are set, the
  decoded B is the original B.
\<close>

theorem LOAD_CONST_decoded_B:
  assumes "0 \<le> B" "B < 2 ^ 20" "0 \<le> C" "C < 2 ^ 43" "bit C 41" "bit C 42"
  shows "\<exists>w. encode ''LOAD_CONST'' [B, C] = Inr w \<and> field_B w = B OR 3 \<and>
     (field_B w \<noteq> B \<longleftrightarrow> \<not> (bit B 0 \<and> bit B 1))"
proof -
  have "take_bit 20 B = B"
    using assms by (simp add: take_bit_int_eq_self)
  then have "field_B (pack 5 B (C AND mask 43)) = B OR 3"
    using assms by (simp only: field_B_load top_two_bits)
  then show ?thesis
    by (simp only: encode_LOAD_CONST sum.inject or_3_eq_iff simp_thms ex_simps)
qed

theorem LOAD_CONST_decoded_B_witness:
  "\<exists>w. encode ''LOAD_CONST'' [4, 6597069766656] = Inr w \<and> field_B w = 7 \<and> field_B w \<noteq> 4"
  using LOAD_CONST_decoded_B [of 4 6597069766656] by (simp add: bit_iff_odd)

text \<open>
  C4 as stated fails: with \<open>B = 3\<close> (two lowest bits set) and \<open>C = 3 * 2^41\<close> (bits 42 and
  41 set) the decoded B is 3, the original B.
\<close>

theorem LOAD_CONST_B_low_bits_set_unchanged:
  "bit (3::int) 0 \<and> bit (3::int) 1 \<and>
   bit (6597069766656::int) 41 \<and> bit (6597069766656::int) 42 \<and>
   (0::int) \<le> 6597069766656 \<and> (6597069766656::int) < 2 ^ 43 \<and>
   encode ''LOAD_CONST'' [3, 6597069766656] = Inr 11529221643138236416 \<and>
   field_B 11529221643138236416 = 3"
  by (simp add: encode_def field_B_def bit_iff_odd)

text \<open>
  C7. For each of the four mnemonics and every argument list of the right length,
  whatever the size or the sign of the arguments, encoding succeeds and yields the word
  that the arguments reduced modulo their field widths yield (B and the 20-bit C fields
  modulo \<open>2^20\<close>, the C of LOAD\_CONST modulo \<open>2^43\<close>, the D of READ\_MEM modulo \<open>2^15\<close>).
\<close>

theorem encode_truncates_arguments:
  "(\<exists>w. encode ''LOAD_CONST'' [B, C] = Inr w \<and>
        encode ''LOAD_CONST'' [B mod 2 ^ 20, C mod 2 ^ 43] = Inr w) \<and>
   (\<exists>w. encode ''READ_MEM'' [B, C, D] = Inr w \<and>
        encode ''READ_MEM'' [B mod 2 ^ 20, C mod 2 ^ 20, D mod 2 ^ 15] = Inr w) \<and>
   (\<exists>w. encode ''WRITE_MEM'' [B, C] = Inr w \<and>
        encode ''WRITE_MEM'' [B mod 2 ^ 20, C mod 2 ^ 20] = Inr w) \<and>
   (\<exists>w. encode ''ABS'' [B, C] = Inr w \<and>
        encode ''ABS'' [B mod 2 ^ 20, C mod 2 ^ 20] = Inr w)"
  unfolding encode_mod_LOAD_CONST encode_mod_READ_MEM encode_mod_WRITE_MEM encode_mod_ABS
  unfolding encode_LOAD_CONST encode_READ_MEM encode_WRITE_MEM encode_ABS
  by blast

section \<open>The executor on memories of 1024 non-negative cells\<close>

lemma field_A_range: "0 \<le> field_A w \<and> field_A w < 8"
  unfolding field_A_def mask3
  using take_bit_int_less_exp [of 3 "drop_bit 61 w"] by (simp flip: take_bit_eq_mask)

lemma field_B_range: "0 \<le> field_B w \<and> field_B w < 2 ^ 20"
  unfolding field_B_def mask20
  using take_bit_int_less_exp [of 20 "drop_bit 41 w"] by (simp flip: take_bit_eq_mask)

lemma field_C_range: "0 \<le> field_C w \<and> field_C w < 2 ^ 20"
  unfolding field_C_def mask20
  using take_bit_int_less_exp [of 20 "drop_bit 21 w"] by (simp flip: take_bit_eq_mask)

lemma field_D_range: "0 \<le> field_D w \<and> field_D w < 2 ^ 15"
  unfolding field_D_def mask15
  using take_bit_int_less_exp [of 15 w] by (simp flip: take_bit_eq_mask)

lemma getitem_good:
  "good m \<Longrightarrow> 0 \<le> i \<Longrightarrow> getitem m i = (if i < 1024 then Inr (m ! nat i) else Inl IndexError)"
  by (simp add: getitem_def good_def)

lemma setitem_good:
  "good m \<Longrightarrow> 0 \<le> i \<Longrightarrow> setitem m i v = (if i < 1024 then Inr (m[nat i := v]) else Inl IndexError)"
  by (simp add: setitem_def good_def)

lemma good_nth: "good m \<Longrightarrow> 0 \<le> i \<Longrightarrow> i < 1024 \<Longrightarrow> 0 \<le> m ! nat i"
  by (simp add: good_def list_all_length)

lemma good_update: "good m \<Longrightarrow> 0 \<le> v \<Longrightarrow> good (m[k := v])"
  using set_update_subset_insert [of m k v] by (auto simp add: good_def list_all_iff)

lemma good_init: "good memory_init"
  by (simp add: good_def memory_init_def list_all_length)


lemma exec_instr_good:
  assumes "good m" "exec_instr m w = Inr m'"
  shows "good m'"
proof -
  note r = field_A_range [of w] field_B_range [of w] field_C_range [of w] field_D_range [of w]
  show ?thesis
    using assms r
    by (auto simp add: exec_instr_def Let_def getitem_good setitem_good good_nth good_update
        split: if_splits sum.splits)
qed

lemma run_good: "good m \<Longrightarrow> run m ws = Inr m' \<Longrightarrow> good m'"
  by (induction ws arbitrary: m) (auto split: sum.splits dest: exec_instr_good)

lemma run_append:
  "run m (ws @ ws') = (case run m ws of Inl e \<Rightarrow> Inl e | Inr m' \<Rightarrow> run m' ws')"
  by (induction ws arbitrary: m) (auto split: sum.splits)


lemma exec_instr_5:
  "good m \<Longrightarrow> field_A w = 5 \<Longrightarrow>
   exec_instr m w = (if field_B w < 1024 then Inr (m[nat (field_B w) := field_C w]) else Inl IndexError)"
  using field_B_range [of w] by (simp add: exec_instr_def Let_def setitem_good)

lemma exec_instr_6:
  assumes "good m" "field_A w = 6"
  shows "exec_instr m w =
    (if field_C w < 1024 \<and> m ! nat (field_C w) + field_D w < 1024 \<and> field_B w < 1024
     then Inr (m[nat (field_B w) := m ! nat (m ! nat (field_C w) + field_D w)])
     else Inl IndexError)"
proof (cases "field_C w < 1024")
  case True
  then have "0 \<le> m ! nat (field_C w) + field_D w"
    using good_nth [OF assms(1), of "field_C w"] field_C_range [of w] field_D_range [of w] by simp
  then show ?thesis
    using True assms field_B_range [of w] field_C_range [of w]
    by (simp add: exec_instr_def Let_def getitem_good setitem_good)
next
  case False
  then show ?thesis
    using assms field_C_range [of w]
    by (simp add: exec_instr_def Let_def getitem_good)
qed


lemma exec_instr_1:
  assumes "good m" "field_A w = 1"
  shows "exec_instr m w =
    (if field_C w < 1024 \<and> m ! nat (field_C w) < 1024 \<and> field_B w < 1024
        \<and> m ! nat (field_B w) < 1024
     then Inr (m[nat (m ! nat (field_B w)) := m ! nat (m ! nat (field_C w))])
     else Inl IndexError)"
proof -
  have c: "field_C w < 1024 \<Longrightarrow> 0 \<le> m ! nat (field_C w)"
    using good_nth [OF assms(1), of "field_C w"] field_C_range [of w] by simp
  have b: "field_B w < 1024 \<Longrightarrow> 0 \<le> m ! nat (field_B w)"
    using good_nth [OF assms(1), of "field_B w"] field_B_range [of w] by simp
  show ?thesis
    using assms b c field_B_range [of w] field_C_range [of w]
    by (simp add: exec_instr_def Let_def getitem_good setitem_good)
qed

lemma exec_instr_0:
  assumes "good m" "field_A w = 0"
  shows "exec_instr m w =
    (if field_C w < 1024 \<and> m ! nat (field_C w) < 1024 \<and> field_B w < 1024
        \<and> m ! nat (field_B w) < 1024
     then Inr (m[nat (m ! nat (field_B w)) := \<bar>m ! nat (m ! nat (field_C w))\<bar>])
     else Inl IndexError)"
proof -
  have c: "field_C w < 1024 \<Longrightarrow> 0 \<le> m ! nat (field_C w)"
    using good_nth [OF assms(1), of "field_C w"] field_C_range [of w] by simp
  have b: "field_B w < 1024 \<Longrightarrow> 0 \<le> m ! nat (field_B w)"
    using good_nth [OF assms(1), of "field_B w"] field_B_range [of w] by simp
  show ?thesis
    using assms b c field_B_range [of w] field_C_range [of w]
    by (simp add: exec_instr_def Let_def getitem_good setitem_good)
qed


lemma exec_error_iff:
  assumes g: "good m"
  shows "(\<exists>i \<in> set (computed_indices m w). i < 0 \<or> 1024 \<le> i) \<longleftrightarrow> exec_instr m w = Inl IndexError"
proof -
  note r = field_B_range [of w] field_C_range [of w] field_D_range [of w]
  have c: "field_C w < 1024 \<Longrightarrow> 0 \<le> m ! nat (field_C w)"
    using good_nth [OF g, of "field_C w"] r by simp
  have b: "field_B w < 1024 \<Longrightarrow> 0 \<le> m ! nat (field_B w)"
    using good_nth [OF g, of "field_B w"] r by simp
  consider "field_A w = 5" | "field_A w = 6" | "field_A w = 1" | "field_A w = 0"
    | "field_A w \<notin> {0, 1, 5, 6}" by auto
  then show ?thesis
  proof cases
    case 1
    then show ?thesis using r by (simp add: exec_instr_5 [OF g] computed_indices_def Let_def)
  next
    case 2
    then show ?thesis
      using r c by (auto simp add: exec_instr_6 [OF g] computed_indices_def Let_def getitem_good [OF g])
  next
    case 3
    then show ?thesis
      using r b c by (auto simp add: exec_instr_1 [OF g] computed_indices_def Let_def getitem_good [OF g])
  next
    case 4
    then show ?thesis
      using r b c by (auto simp add: exec_instr_0 [OF g] computed_indices_def Let_def getitem_good [OF g])
  next
    case 5
    then show ?thesis by (simp add: exec_instr_def computed_indices_def Let_def)
  qed
qed

lemma abs_is_write:
  assumes g: "good m" and "field_A a = 0" "field_A w = 1" "field_B a = field_B w"
    "field_C a = field_C w"
  shows "exec_instr m a = exec_instr m w"
proof -
  have "0 \<le> m ! nat (m ! nat (field_C w))"
    if "field_C w < 1024" "m ! nat (field_C w) < 1024"
    using that good_nth [OF g, of "field_C w"] good_nth [OF g, of "m ! nat (field_C w)"]
      field_C_range [of w] by simp
  then show ?thesis
    using assms by (simp add: exec_instr_0 [OF g] exec_instr_1 [OF g])
qed

section \<open>The claims about execution\<close>

text \<open>
  C5. For every instruction word whose decoded opcode A (bits 63 to 61) is none of 0, 1,
  5 and 6, executing the instruction raises no error and leaves every memory cell as it
  was, and execution goes on with the next word.
\<close>

theorem unknown_opcode_is_noop:
  assumes "field_A instruction \<notin> {0, 1, 5, 6}"
  shows "exec_instr memory instruction = Inr memory \<and>
         run memory (instruction # rest) = run memory rest"
  using assms by (simp add: exec_instr_def Let_def)

theorem unknown_opcode_is_noop_witness:
  "field_A (push_bit 61 7) \<notin> {0, 1, 5, 6} \<and>
   exec_instr memory_init (push_bit 61 7) = Inr memory_init \<and>
   run memory_init [push_bit 61 7, push_bit 61 2] = Inr memory_init"
proof -
  have a: "field_A (push_bit 61 7) \<notin> {0, 1, 5, 6}" "field_A (push_bit 61 2) \<notin> {0, 1, 5, 6}"
    by (simp_all add: field_A_def)
  show ?thesis
    using a unknown_opcode_is_noop [OF a(1), of memory_init "[push_bit 61 2]"]
      unknown_opcode_is_noop [OF a(2), of memory_init "[]"]
    by simp
qed

text \<open>
  C10. Starting from the all-zero memory of 1024 cells, after any prefix of any
  instruction stream that ran without a fatal halt, the memory still has 1024 cells and
  every cell holds a value \<open>\<ge> 0\<close>; so in every such memory an ABS instruction (A = 0)
  does exactly what the WRITE\_MEM instruction (A = 1) with the same B and C does: the
  same memory, or the same error.
\<close>

theorem reachable_cells_nonnegative:
  assumes "run memory_init prefix = Inr memory"
  shows "length memory = 1024 \<and> (\<forall>v \<in> set memory. 0 \<le> v) \<and>
    (\<forall>abs_word write_word. field_A abs_word = 0 \<and> field_A write_word = 1 \<and>
        field_B abs_word = field_B write_word \<and> field_C abs_word = field_C write_word
        \<longrightarrow> exec_instr memory abs_word = exec_instr memory write_word)"
proof -
  have g: "good memory" using run_good [OF good_init assms] .
  then have "length memory = 1024" "\<forall>v \<in> set memory. 0 \<le> v"
    by (simp_all add: good_def list_all_iff)
  then show ?thesis using abs_is_write [OF g] by blast
qed

theorem reachable_cells_nonnegative_witness:
  "run memory_init [push_bit 61 5 OR push_bit 41 3 OR push_bit 21 7]
     = Inr (memory_init[3 := 7]) \<and>
   length (memory_init[3 := 7]) = 1024 \<and>
   exec_instr (memory_init[3 := 7]) (push_bit 41 3 OR push_bit 21 3)
     = exec_instr (memory_init[3 := 7]) (push_bit 61 1 OR push_bit 41 3 OR push_bit 21 3)"
proof -
  have r: "run memory_init [push_bit 61 5 OR push_bit 41 3 OR push_bit 21 7]
      = Inr (memory_init[3 := 7])"
    by (simp add: exec_instr_def field_A_def field_B_def field_C_def field_D_def
        setitem_def memory_init_def)
  have f: "field_A (push_bit 41 3 OR push_bit 21 3) = 0"
    "field_A (push_bit 61 1 OR push_bit 41 3 OR push_bit 21 3) = 1"
    "field_B (push_bit 41 3 OR push_bit 21 3)
       = field_B (push_bit 61 1 OR push_bit 41 3 OR push_bit 21 3)"
    "field_C (push_bit 41 3 OR push_bit 21 3)
       = field_C (push_bit 61 1 OR push_bit 41 3 OR push_bit 21 3)"
    by (simp_all add: field_A_def field_B_def field_C_def)
  show ?thesis
    using reachable_cells_nonnegative [OF r] r f by blast
qed

text \<open>
  C6. In every memory the executor reaches from the all-zero memory, an instruction that
  computes a memory index outside \<open>[0, 1024)\<close> (the decoded B, the decoded C, or an index
  derived from a cell) raises IndexError: the run halts at this instruction, whatever
  follows it in the stream is not executed, and no dump is written.
\<close>

theorem bounds_violation_halts:
  assumes "run memory_init executed = Inr memory"
    and "\<exists>i \<in> set (computed_indices memory instruction). i < 0 \<or> 1024 \<le> i"
  shows "exec_instr memory instruction = Inl IndexError \<and>
    run memory_init (executed @ instruction # rest) = Inl IndexError \<and>
    (words_of bytes = executed @ instruction # rest
       \<longrightarrow> interpret_uvm bytes memory_dump_path memory_range files
             = (Some IndexError, files))"
proof -
  have g: "good memory"
    using run_good [OF good_init assms(1)] .
  have e: "exec_instr memory instruction = Inl IndexError"
    using exec_error_iff [OF g, of instruction] assms(2) by simp
  then have "run memory_init (executed @ instruction # rest) = Inl IndexError"
    by (simp add: run_append assms(1))
  then show ?thesis
    using e by (simp add: interpret_uvm_def)
qed

theorem bounds_violation_halts_witness:
  "run memory_init [] = Inr memory_init \<and>
   1024 \<in> set (computed_indices memory_init (push_bit 61 5 OR push_bit 41 1024)) \<and>
   exec_instr memory_init (push_bit 61 5 OR push_bit 41 1024) = Inl IndexError \<and>
   run memory_init [push_bit 61 5 OR push_bit 41 1024, 1] = Inl IndexError \<and>
   interpret_uvm [0xA0, 0x08, 0, 0, 0, 0, 0, 0, 1] ''dump.csv'' (0, 2) Map.empty
     = (Some IndexError, Map.empty)"
proof -
  have i: "1024 \<in> set (computed_indices memory_init (push_bit 61 5 OR push_bit 41 1024))"
    by (simp add: computed_indices_def field_A_def field_B_def)
  then have h: "\<exists>i \<in> set (computed_indices memory_init (push_bit 61 5 OR push_bit 41 1024)).
      i < 0 \<or> 1024 \<le> i"
    by (rule rev_bexI) simp
  have r: "run memory_init [] = Inr memory_init"
    by simp
  have w: "words_of [0xA0, 0x08, 0, 0, 0, 0, 0, 0, 1]
      = [] @ (push_bit 61 5 OR push_bit 41 1024) # [1]"
    by (simp add: from_bytes_def)
  show ?thesis
    using bounds_violation_halts [OF r h, of "[1]" "[0xA0, 0x08, 0, 0, 0, 0, 0, 0, 1]"
        "''dump.csv''" "(0, 2)" Map.empty] i r w
    by simp
qed

section \<open>LOAD\_CONST as executed\<close>

lemma field_A_load: "field_A (pack a b (c AND mask 43)) = take_bit 3 a"
  unfolding pack_def field_A_def mask3 by (rule bit_eqI) (auto simp add: bit_simps)

lemma exec_LOAD_CONST:
  "exec_instr memory (pack 5 B (c AND mask 43))
     = setitem memory (field_B (pack 5 B (c AND mask 43))) ((c div 2 ^ 21) mod 2 ^ 20)"
  by (simp add: exec_instr_def Let_def field_A_load field_C_load take_bit_eq_mod drop_bit_eq_div)

lemma small_C: "0 \<le> c \<Longrightarrow> c < 2 ^ 21 \<Longrightarrow> (c div 2 ^ 21) mod 2 ^ 20 = (0::int)"
  by simp

lemma small_top: "0 \<le> c \<Longrightarrow> c < 2 ^ 21 \<Longrightarrow> take_bit 2 (drop_bit 41 (c::int)) = 0"
  by (simp add: drop_bit_eq_div)

lemma field_B_small:
  assumes "0 \<le> B" "B < 1024" "0 \<le> c" "c < 2 ^ 21"
  shows "field_B (pack 5 B (c AND mask 43)) = B"
proof -
  have "take_bit 20 B = B" using assms by (simp add: take_bit_int_eq_self)
  then show ?thesis
    unfolding field_B_load small_top [OF assms(3,4)] by simp
qed

lemma exec_small:
  assumes "length memory = 1024" "0 \<le> B" "B < 1024" "0 \<le> c" "c < 2 ^ 21"
  shows "exec_instr memory (pack 5 B (c AND mask 43)) = Inr (memory[nat B := 0])"
proof -
  have "setitem memory B 0 = Inr (memory[nat B := 0])"
    using assms by (simp add: setitem_def)
  then show ?thesis
    unfolding exec_LOAD_CONST field_B_small [OF assms(2-5)] small_C [OF assms(4,5)] .
qed

text \<open>
  C9, as the code has it. Executing the encoded word of a LOAD\_CONST instruction stores
  \<open>floor(const / 2^21) mod 2^20\<close> into the decoded cell B (or raises IndexError there). For
  a destination address \<open>0 \<le> B < 1024\<close> and a constant \<open>0 \<le> const < 2^21\<close>, in a memory
  of 1024 cells, the decoded B is B and the value stored into cell B is 0: this is the
  constant itself exactly when the constant is 0, and never for a constant from 1 to
  \<open>2^21 - 1\<close>.
\<close>

theorem LOAD_CONST_stores_high_bits:
  "\<exists>w. encode ''LOAD_CONST'' [B, const] = Inr w \<and>
     exec_instr memory w = setitem memory (field_B w) ((const div 2 ^ 21) mod 2 ^ 20) \<and>
     (length memory = 1024 \<and> 0 \<le> B \<and> B < 1024 \<and> 0 \<le> const \<and> const < 2 ^ 21 \<longrightarrow>
        field_B w = B \<and> exec_instr memory w = Inr (memory[nat B := 0]) \<and>
        (memory[nat B := 0]) ! nat B = 0 \<and>
        ((memory[nat B := 0]) ! nat B = const \<longleftrightarrow> const = 0))"
proof (intro exI conjI impI)
  show "encode ''LOAD_CONST'' [B, const] = Inr (pack 5 B (const AND mask 43))"
    by (rule encode_LOAD_CONST)
  show "exec_instr memory (pack 5 B (const AND mask 43))
      = setitem memory (field_B (pack 5 B (const AND mask 43))) ((const div 2 ^ 21) mod 2 ^ 20)"
    by (rule exec_LOAD_CONST)
next
  assume h: "length memory = 1024 \<and> 0 \<le> B \<and> B < 1024 \<and> 0 \<le> const \<and> const < 2 ^ 21"
  show "field_B (pack 5 B (const AND mask 43)) = B"
    using h by (intro field_B_small) simp_all
  show "exec_instr memory (pack 5 B (const AND mask 43)) = Inr (memory[nat B := 0])"
    using h by (intro exec_small) simp_all
  have "nat B < length memory"
    using h by linarith
  then show z: "(memory[nat B := 0]) ! nat B = 0"
    by simp
  show "((memory[nat B := 0]) ! nat B = const) = (const = 0)"
    unfolding z by auto
qed

theorem LOAD_CONST_stores_high_bits_witness:
  "\<exists>w. encode ''LOAD_CONST'' [0, 42] = Inr w \<and>
     exec_instr memory_init w = Inr (memory_init[0 := 0]) \<and> (memory_init[0 := 0]) ! 0 \<noteq> 42"
proof -
  have "length memory_init = 1024" by (simp add: memory_init_def)
  then show ?thesis
    using LOAD_CONST_stores_high_bits [of 0 42 memory_init] by auto
qed
text \<open>
  C9 as stated fails in its last part: for the constant 0, which is below \<open>2^21\<close>, the
  value stored in cell 0 is 0, the constant itself.
\<close>

theorem LOAD_CONST_zero_stores_constant:
  "(0::int) \<le> 0 \<and> (0::int) < 1024 \<and> (0::int) < 2 ^ 21 \<and>
   encode ''LOAD_CONST'' [0, 0] = Inr 11529215046068469760 \<and>
   exec_instr memory_init 11529215046068469760 = Inr (memory_init[0 := 0]) \<and>
   (memory_init[0 := 0]) ! 0 = 0"
proof -
  have "length memory_init = 1024" by (simp add: memory_init_def)
  then show ?thesis
    by (simp add: encode_def exec_instr_def field_A_def field_B_def field_C_def setitem_def)
qed

section \<open>The assembler on malformed and on well-formed input\<close>

lemma map_int_Inl: "list_ex (\<lambda>t. py_int t = None) ts \<Longrightarrow> map_int ts = Inl ValueError"
  by (induction ts) (auto split: option.splits sum.splits)

lemma map_int_Inr: "\<not> list_ex (\<lambda>t. py_int t = None) ts \<Longrightarrow> \<exists>vs. map_int ts = Inr vs \<and> length vs = length ts"
  by (induction ts) (auto split: option.splits sum.splits)

lemma map_int_length: "map_int ts = Inr vs \<Longrightarrow> length vs = length ts"
  by (induction ts arbitrary: vs) (auto split: option.splits sum.splits)

lemma encode_unknown: "arg_count command = None \<Longrightarrow> encode command args = Inl ValueError"
  by (simp add: arg_count_def encode_def split: if_splits)

lemma encode_count:
  "arg_count command = Some n \<Longrightarrow> length args \<noteq> n \<Longrightarrow> encode command args = Inl ValueError"
  by (auto simp add: arg_count_def encode_def split: if_splits list.splits)

lemma encode_ok:
  "arg_count command = Some n \<Longrightarrow> length args = n \<Longrightarrow> \<exists>w. encode command args = Inr w"
  by (auto simp add: arg_count_def encode_def split: if_splits list.splits)

lemma assemble_line_error:
  "input_format_error line \<longleftrightarrow> (\<exists>e. assemble_line line = Inl e)"
proof (cases "split_ws line")
  case Nil
  then show ?thesis by (simp add: input_format_error_def assemble_line_def)
next
  case (Cons command rest)
  show ?thesis
  proof (cases "list_ex (\<lambda>t. py_int t = None) rest")
    case True
    then show ?thesis
      using Cons map_int_Inl [OF True]
      by (simp add: input_format_error_def assemble_line_def split: option.splits)
  next
    case False
    then obtain vs where vs: "map_int rest = Inr vs" "length vs = length rest"
      using map_int_Inr by blast
    show ?thesis
    proof (cases "arg_count command")
      case None
      then show ?thesis
        using Cons vs by (simp add: input_format_error_def assemble_line_def encode_unknown)
    next
      case (Some n)
      show ?thesis
      proof (cases "length rest = n")
        case True
        then obtain w where "encode command vs = Inr w"
          using encode_ok [OF Some, of vs] vs by auto
        then show ?thesis
          using Cons vs Some True False by (simp add: input_format_error_def assemble_line_def)
      next
        case ne: False
        then have "encode command vs = Inl ValueError"
          using encode_count [OF Some, of vs] vs by simp
        then show ?thesis
          using Cons vs Some ne by (simp add: input_format_error_def assemble_line_def)
      qed
    qed
  qed
qed

lemma assemble_loop_error:
  "(\<exists>line \<in> set lines. input_format_error line) \<longleftrightarrow> (\<exists>e. assemble_loop lines = Inl e)"
proof (induction lines)
  case Nil
  then show ?case by simp
next
  case (Cons line lines)
  show ?case
  proof (cases "assemble_line line")
    case (Inl e)
    then show ?thesis using assemble_line_error [of line] by simp
  next
    case (Inr r)
    then have "\<not> input_format_error line" using assemble_line_error [of line] by simp
    then show ?thesis
      using Inr Cons.IH by (cases r) (auto split: sum.splits)
  qed
qed

lemma pack_range:
  assumes "0 \<le> low" "low < 2 ^ 61"
  shows "0 \<le> pack a b low \<and> pack a b low < 2 ^ 64"
proof -
  have l: "take_bit 61 low = low"
    using assms by (simp add: take_bit_int_eq_self)
  have "take_bit 64 (pack a b (take_bit 61 low)) = pack a b (take_bit 61 low)"
    unfolding pack_def by (rule bit_eqI) (auto simp add: bit_simps)
  then have "take_bit 64 (pack a b low) = pack a b low"
    by (simp only: l)
  then show ?thesis
    using take_bit_int_less_exp [of 64 "pack a b low"] take_bit_nonnegative [of 64 "pack a b low"]
    by simp
qed

lemma fits_61:
  assumes "take_bit 61 x = (x::int)"
  shows "0 \<le> x \<and> x < 2 ^ 61"
  using take_bit_int_less_exp [of 61 x] take_bit_nonnegative [of 61 x] assms by simp

lemma low_ranges:
  "0 \<le> (c::int) AND mask 43 \<and> c AND mask 43 < 2 ^ 61"
  "0 \<le> (c::int) AND mask 20 \<and> c AND mask 20 < 2 ^ 61"
  "0 \<le> push_bit 21 ((c::int) AND mask 20) OR (d AND mask 15) \<and>
   push_bit 21 (c AND mask 20) OR (d AND mask 15) < 2 ^ 61"
proof -
  have "take_bit 61 (c AND mask 43) = c AND mask 43"
    by (rule bit_eqI) (auto simp add: bit_simps)
  then show "0 \<le> (c::int) AND mask 43 \<and> c AND mask 43 < 2 ^ 61"
    by (rule fits_61)
  have "take_bit 61 (c AND mask 20) = c AND mask 20"
    by (rule bit_eqI) (auto simp add: bit_simps)
  then show "0 \<le> (c::int) AND mask 20 \<and> c AND mask 20 < 2 ^ 61"
    by (rule fits_61)
  have "take_bit 61 (push_bit 21 (c AND mask 20) OR (d AND mask 15))
      = push_bit 21 (c AND mask 20) OR (d AND mask 15)"
    by (rule bit_eqI) (auto simp add: bit_simps)
  then show "0 \<le> push_bit 21 ((c::int) AND mask 20) OR (d AND mask 15) \<and>
      push_bit 21 (c AND mask 20) OR (d AND mask 15) < 2 ^ 61"
    by (rule fits_61)
qed

lemma encode_range:
  assumes "encode command args = Inr w"
  shows "0 \<le> w \<and> w < 2 ^ 64"
proof -
  consider b c where "w = pack 5 b (c AND mask 43)"
    | b c d where "w = pack 6 b (push_bit 21 (c AND mask 20) OR (d AND mask 15))"
    | b c where "w = pack 1 b (c AND mask 20)"
    | b c where "w = pack 0 b (c AND mask 20)"
    using assms
    by (auto simp add: encode_def pack_def mask_eq_exp_minus_1 split: if_splits list.splits)
  then show ?thesis
    by cases (simp_all only: pack_range [OF low_ranges(1) [THEN conjunct1] low_ranges(1) [THEN conjunct2]]
      pack_range [OF low_ranges(2) [THEN conjunct1] low_ranges(2) [THEN conjunct2]]
      pack_range [OF low_ranges(3) [THEN conjunct1] low_ranges(3) [THEN conjunct2]])
qed


lemma assemble_line_range:
  "assemble_line line = Inr (w, t) \<Longrightarrow> 0 \<le> w \<and> w < 2 ^ 64"
  by (auto simp add: assemble_line_def split: list.splits sum.splits dest: encode_range)

lemma assemble_loop_range:
  "assemble_loop lines = Inr (ws, ts) \<Longrightarrow> list_all (\<lambda>w. 0 \<le> w \<and> w < 2 ^ 64) ws"
proof (induction lines arbitrary: ws ts)
  case Nil
  then show ?case by simp
next
  case (Cons line lines)
  then show ?case
    by (auto split: sum.splits prod.splits dest: assemble_line_range)
qed

lemma write_words_ok:
  "list_all (\<lambda>w. 0 \<le> w \<and> w < 2 ^ 64) ws \<Longrightarrow>
   \<exists>bytes. write_words out ws = (None, bytes) \<and> length bytes = length out + 8 * length ws"
proof (induction ws arbitrary: out)
  case Nil
  then show ?case by simp
next
  case (Cons w ws)
  then have "to_bytes8 w = Inr (map (\<lambda>k. word_of_int (drop_bit (8 * k) w)) (rev [0..<8]))"
    by (simp add: to_bytes8_def)
  then show ?case
    using Cons.IH [of "out @ map (\<lambda>k. word_of_int (drop_bit (8 * k) w)) (rev [0..<8])"] Cons.prems
    by auto
qed

text \<open>
  The converse, for tokens within the digit limit of \<^verbatim>\<open>int\<close>: without an input-format
  error both files are written.
\<close>

lemma assemble_success:
  assumes "\<not> (\<exists>line \<in> set lines. input_format_error line)"
    and "\<forall>line \<in> set lines. \<forall>t \<in> set (split_ws line). length t \<le> 4300"
  shows "\<exists>bytes log. length bytes = 8 * length lines \<and>
    assemble lines output_path log_path files
      = (None, files(output_path \<mapsto> Binary bytes, log_path \<mapsto> Trace log))"
proof -
  obtain ws ts where l: "assemble_loop lines = Inr (ws, ts)"
    using assms(1) assemble_loop_error [of lines] by (cases "assemble_loop lines") auto
  have n: "length ws = length lines"
    using l by (induction lines arbitrary: ws ts) (auto split: sum.splits prod.splits)
  obtain bytes where "write_words [] ws = (None, bytes)" "length bytes = 8 * length ws"
    using write_words_ok [OF assemble_loop_range [OF l], of "[]"] by auto
  then show ?thesis
    using l n by (auto simp add: assemble_def)
qed

text \<open>
  The no-break space and the next-line character separate tokens like the space does, and
  a line of such characters only is blank.
\<close>

lemma assemble_line_latin1_spaces:
  "assemble_line (''LOAD_CONST'' @ [CHR 0xA0] @ ''1'' @ [CHR 0x85] @ ''2'')
     = assemble_line ''LOAD_CONST 1 2''"
  "\<not> input_format_error (''LOAD_CONST'' @ [CHR 0xA0] @ ''1'' @ [CHR 0x85] @ ''2'')"
  "assemble_line [CHR 0xA0, CHR 0x85] = Inl IndexError"
  by code_simp+

text \<open>
  C8. If a source line has a mnemonic that is none of LOAD\_CONST, READ\_MEM, WRITE\_MEM
  and ABS, a wrong number of arguments for its mnemonic, or an argument token that is no
  integer (or is blank), the assembler fails with an error and the files are as they
  were: neither the binary output nor the trace is written. The lines are strings of
  code points below 256, cut into tokens at every character Python takes for whitespace.
\<close>

theorem input_format_error_writes_nothing:
  assumes "\<exists>line \<in> set lines. input_format_error line"
  shows "\<exists>e. assemble lines output_path log_path files = (Some e, files)"
proof -
  obtain e where "assemble_loop lines = Inl e"
    using assms assemble_loop_error by blast
  then show ?thesis by (simp add: assemble_def)
qed


theorem input_format_error_writes_nothing_witness:
  "input_format_error ''JUMP 3'' \<and>
   (\<exists>e. assemble [''LOAD_CONST 0 42'', ''JUMP 3''] ''program.bin'' ''log.csv'' Map.empty
      = (Some e, Map.empty))"
proof -
  have b: "input_format_error ''JUMP 3''"
    by code_simp
  then have "\<exists>line \<in> set [''LOAD_CONST 0 42'', ''JUMP 3'']. input_format_error line"
    by simp
  then show ?thesis
    using input_format_error_writes_nothing [of "[''LOAD_CONST 0 42'', ''JUMP 3'']" "''program.bin''" "''log.csv''" Map.empty] b
    by simp
qed

section \<open>The end-to-end scenario\<close>

lemma scenario_line1: "assemble_line (''LOAD_CONST 0 42'' @ [CHR 0x0A])
   = Inr (11529215046068469802, \<lparr>tr_command = ''LOAD_CONST'', tr_args = [0, 42], tr_instruction = ''A00000000000002A''\<rparr>)"
  by code_simp

lemma scenario_line2: "assemble_line (''LOAD_CONST 1 0'' @ [CHR 0x0A])
   = Inr (11529217245091725312, \<lparr>tr_command = ''LOAD_CONST'', tr_args = [1, 0], tr_instruction = ''A000020000000000''\<rparr>)"
  by code_simp

lemma scenario_line3: "assemble_line ''WRITE_MEM 1 0''
   = Inr (2305845208236949504, \<lparr>tr_command = ''WRITE_MEM'', tr_args = [1, 0], tr_instruction = ''2000020000000000''\<rparr>)"
  by code_simp

lemma scenario_bytes: "write_words [] [11529215046068469802, 11529217245091725312, 2305845208236949504]
  = (None, [0xA0, 0, 0, 0, 0, 0, 0, 0x2A, 0xA0, 0, 0x02, 0, 0, 0, 0, 0, 0x20, 0, 0x02, 0, 0, 0, 0, 0])"
  by code_simp

lemma scenario_words: "words_of [0xA0, 0, 0, 0, 0, 0, 0, 0x2A, 0xA0, 0, 0x02, 0, 0, 0, 0, 0, 0x20, 0, 0x02, 0, 0, 0, 0, 0]
  = [11529215046068469802, 11529217245091725312, 2305845208236949504]"
  by (simp add: from_bytes_def)


lemma scenario_run: "run memory_init [11529215046068469802, 11529217245091725312, 2305845208236949504] = Inr memory_init"
  by code_simp

lemma scenario_dump: "dump_rows memory_init (0, 2) = [(0, 0), (1, 0)]"
  by code_simp

lemma scenario_assemble:
  "assemble [''LOAD_CONST 0 42'' @ [CHR 0x0A], ''LOAD_CONST 1 0'' @ [CHR 0x0A], ''WRITE_MEM 1 0'']
      ''program.bin'' ''log.csv'' Map.empty
    = (None,
       [''program.bin'' \<mapsto> Binary [0xA0, 0, 0, 0, 0, 0, 0, 0x2A, 0xA0, 0, 0x02, 0, 0, 0, 0, 0,
                                        0x20, 0, 0x02, 0, 0, 0, 0, 0],
        ''log.csv'' \<mapsto> Trace
          [\<lparr>tr_command = ''LOAD_CONST'', tr_args = [0, 42],
            tr_instruction = ''A00000000000002A''\<rparr>,
           \<lparr>tr_command = ''LOAD_CONST'', tr_args = [1, 0],
            tr_instruction = ''A000020000000000''\<rparr>,
           \<lparr>tr_command = ''WRITE_MEM'', tr_args = [1, 0],
            tr_instruction = ''2000020000000000''\<rparr>]])"
proof -
  have loop: "assemble_loop
      [''LOAD_CONST 0 42'' @ [CHR 0x0A], ''LOAD_CONST 1 0'' @ [CHR 0x0A], ''WRITE_MEM 1 0'']
    = Inr ([11529215046068469802, 11529217245091725312, 2305845208236949504],
       [\<lparr>tr_command = ''LOAD_CONST'', tr_args = [0, 42],
         tr_instruction = ''A00000000000002A''\<rparr>,
        \<lparr>tr_command = ''LOAD_CONST'', tr_args = [1, 0],
         tr_instruction = ''A000020000000000''\<rparr>,
        \<lparr>tr_command = ''WRITE_MEM'', tr_args = [1, 0],
         tr_instruction = ''2000020000000000''\<rparr>])"
    by (simp only: assemble_loop.simps scenario_line1 scenario_line2 scenario_line3 sum.case prod.case)
  show ?thesis
    by (simp only: assemble_def loop scenario_bytes sum.case prod.case option.case)
qed

lemma scenario_interpret:
  "interpret_uvm [0xA0, 0, 0, 0, 0, 0, 0, 0x2A, 0xA0, 0, 0x02, 0, 0, 0, 0, 0,
                  0x20, 0, 0x02, 0, 0, 0, 0, 0] ''dump.csv'' (0, 2) files
    = (None, files(''dump.csv'' \<mapsto> Dump [(0, 0), (1, 0)]))"
  by (simp only: interpret_uvm_def scenario_words scenario_run scenario_dump sum.case)

text \<open>
  C1, as the code has it. Assembling the three lines \<^verbatim>\<open>LOAD_CONST 0 42\<close>,
  \<^verbatim>\<open>LOAD_CONST 1 0\<close>, \<^verbatim>\<open>WRITE_MEM 1 0\<close> succeeds and writes the word stream; executing
  this stream on the fresh memory of 1024 zero cells and dumping the range \<open>[0, 2)\<close>
  succeeds and reports address 0 with value 0 and address 1 with value 0.
\<close>

theorem end_to_end_scenario_reports_zero:
  "\<exists>files bytes.
     assemble [''LOAD_CONST 0 42'' @ [CHR 0x0A], ''LOAD_CONST 1 0'' @ [CHR 0x0A],
               ''WRITE_MEM 1 0''] ''program.bin'' ''log.csv'' Map.empty = (None, files) \<and>
     files ''program.bin'' = Some (Binary bytes) \<and>
     interpret_uvm bytes ''dump.csv'' (0, 2) files
       = (None, files(''dump.csv'' \<mapsto> Dump [(0, 0), (1, 0)]))"
proof -
  let ?bytes = "[0xA0, 0, 0, 0, 0, 0, 0, 0x2A, 0xA0, 0, 0x02, 0, 0, 0, 0, 0,
                 0x20, 0, 0x02, 0, 0, 0, 0, 0] :: byte list"
  let ?files = "[''program.bin'' \<mapsto> Binary ?bytes,
        ''log.csv'' \<mapsto> Trace
          [\<lparr>tr_command = ''LOAD_CONST'', tr_args = [0, 42],
            tr_instruction = ''A00000000000002A''\<rparr>,
           \<lparr>tr_command = ''LOAD_CONST'', tr_args = [1, 0],
            tr_instruction = ''A000020000000000''\<rparr>,
           \<lparr>tr_command = ''WRITE_MEM'', tr_args = [1, 0],
            tr_instruction = ''2000020000000000''\<rparr>]]"
  have "assemble [''LOAD_CONST 0 42'' @ [CHR 0x0A], ''LOAD_CONST 1 0'' @ [CHR 0x0A],
               ''WRITE_MEM 1 0''] ''program.bin'' ''log.csv'' Map.empty = (None, ?files)"
    by (rule scenario_assemble)
  moreover have "?files ''program.bin'' = Some (Binary ?bytes)"
    by simp
  moreover have "interpret_uvm ?bytes ''dump.csv'' (0, 2) ?files
       = (None, ?files(''dump.csv'' \<mapsto> Dump [(0, 0), (1, 0)]))"
    by (rule scenario_interpret)
  ultimately show ?thesis
    by blast
qed

text \<open>
  C1 as stated fails: the dump of the scenario has the row of address 0 with value 0,
  and no row with value 42. The constant 42 sits in bits 5 to 0 of the first word, and
  the executor reads C from bits 40 to 21.
\<close>

theorem end_to_end_scenario_not_42:
  "interpret_uvm [0xA0, 0, 0, 0, 0, 0, 0, 0x2A, 0xA0, 0, 0x02, 0, 0, 0, 0, 0,
                  0x20, 0, 0x02, 0, 0, 0, 0, 0] ''dump.csv'' (0, 2) Map.empty
     = (None, [''dump.csv'' \<mapsto> Dump [(0, 0), (1, 0)]]) \<and>
   (0, 42) \<notin> set [(0, 0), (1, 0 :: int)] \<and>
   fst (assemble [''LOAD_CONST 0 42'' @ [CHR 0x0A], ''LOAD_CONST 1 0'' @ [CHR 0x0A],
                  ''WRITE_MEM 1 0''] ''program.bin'' ''log.csv'' Map.empty) = None \<and>
   snd (assemble [''LOAD_CONST 0 42'' @ [CHR 0x0A], ''LOAD_CONST 1 0'' @ [CHR 0x0A],
                  ''WRITE_MEM 1 0''] ''program.bin'' ''log.csv'' Map.empty) ''program.bin''
     = Some (Binary [0xA0, 0, 0, 0, 0, 0, 0, 0x2A, 0xA0, 0, 0x02, 0, 0, 0, 0, 0,
                     0x20, 0, 0x02, 0, 0, 0, 0, 0])"
  unfolding scenario_assemble scenario_interpret by simp

end
